theory Spec2Isabelle
  imports Complex_Main
begin

section \<open>Outcome tally of the quantum adder experiment\<close>

text \<open>
  The last code cell of the quantum notebook tallies the measured bit-strings by
  their first two characters (the output qubits \<open>q3 q2\<close>):
  \<^verbatim>\<open>
  result_frequencies = {'00':0, '01':0, '10':0, '11':0 }

  for key in result_counts.keys():
      freq_key = key[0:2]
      result_frequencies[freq_key] = result_frequencies[freq_key] + result_counts[key]
  \<close>
  \<open>result_counts\<close> is a Python dict from bit-strings to shot counts. It is modelled
  as an association list in iteration order (a dict has no duplicate keys, which the
  theorems state as \<open>distinct (map fst result_counts)\<close>); \<open>result_frequencies\<close> is
  a map. A subscript with a missing key raises \<open>KeyError\<close>; the left operand of
  \<open>+\<close> is evaluated first.
\<close>

datatype py_error = KeyError string

type_synonym counts = "(string \<times> int) list"

definition result_frequencies_init :: "string \<rightharpoonup> int" where
  "result_frequencies_init =
     [''00'' \<mapsto> 0, ''01'' \<mapsto> 0, ''10'' \<mapsto> 0, ''11'' \<mapsto> 0]"

definition tally_step :: "counts \<Rightarrow> (string \<rightharpoonup> int) \<Rightarrow> string \<Rightarrow> py_error + (string \<rightharpoonup> int)" where
  "tally_step result_counts result_frequencies key =
     (let freq_key = take 2 key in
      case result_frequencies freq_key of
        None \<Rightarrow> Inl (KeyError freq_key)
      | Some f \<Rightarrow>
          (case map_of result_counts key of
             None \<Rightarrow> Inl (KeyError key)
           | Some c \<Rightarrow> Inr (result_frequencies(freq_key \<mapsto> f + c))))"

fun tally_loop :: "counts \<Rightarrow> (string \<rightharpoonup> int) \<Rightarrow> string list \<Rightarrow> py_error + (string \<rightharpoonup> int)" where
  "tally_loop result_counts result_frequencies [] = Inr result_frequencies"
| "tally_loop result_counts result_frequencies (key # keys) =
     (case tally_step result_counts result_frequencies key of
        Inl e \<Rightarrow> Inl e
      | Inr result_frequencies' \<Rightarrow> tally_loop result_counts result_frequencies' keys)"

definition tally :: "counts \<Rightarrow> py_error + (string \<rightharpoonup> int)" where
  "tally result_counts =
     tally_loop result_counts result_frequencies_init (map fst result_counts)"

text \<open>The four two-character outcomes, and the shots of the keys sharing a prefix.\<close>

definition outcomes :: "string list" where
  "outcomes = [''00'', ''01'', ''10'', ''11'']"

definition prefix_total :: "counts \<Rightarrow> string \<Rightarrow> int" where
  "prefix_total rc p = sum_list (map snd (filter (\<lambda>kv. take 2 (fst kv) = p) rc))"

text \<open>A sample of measured counts: two keys share the prefix \<open>00\<close>.\<close>

definition sample_counts :: counts where
  "sample_counts =
     [(''1011'', 590), (''0011'', 200), (''0001'', 63), (''0111'', 91), (''1111'', 80)]"


section \<open>The quantum adder circuit\<close>

text \<open>
  The notebook builds a circuit on a register of \<open>num_qubits = 4\<close> qubits,
  \<open>q[0]\<close> to \<open>q[3]\<close>, all starting in the ground state:
  \<^verbatim>\<open>
  qc.x(q[0])
  qc.x(q[1])
  qc.cx(q[0], q[2])
  qc.cx(q[1], q[2])
  qc.ch(q[0], q[3])
  qc.cz(q[1], q[3])
  qc.ch(q[0], q[3])
  qc.measure(q, c)
  \<close>
  A computational-basis state gives each qubit a bit; a state of the register gives
  each basis state a complex amplitude. The operations are the ideal ones the
  notebook describes: \<open>x\<close> flips its qubit, \<open>cx\<close> flips the target where the source
  is 1, \<open>cz\<close> changes the sign of the amplitude where source and target are both 1,
  and \<open>ch\<close> applies the Hadamard operation to the target where the source is 1.
\<close>

datatype qubit = Q0 | Q1 | Q2 | Q3

type_synonym basis = "bool \<times> bool \<times> bool \<times> bool"

type_synonym qstate = "basis \<Rightarrow> complex"

fun qbit :: "qubit \<Rightarrow> basis \<Rightarrow> bool" where
  "qbit Q0 (b0, b1, b2, b3) = b0"
| "qbit Q1 (b0, b1, b2, b3) = b1"
| "qbit Q2 (b0, b1, b2, b3) = b2"
| "qbit Q3 (b0, b1, b2, b3) = b3"

fun set_qbit :: "qubit \<Rightarrow> bool \<Rightarrow> basis \<Rightarrow> basis" where
  "set_qbit Q0 v (b0, b1, b2, b3) = (v, b1, b2, b3)"
| "set_qbit Q1 v (b0, b1, b2, b3) = (b0, v, b2, b3)"
| "set_qbit Q2 v (b0, b1, b2, b3) = (b0, b1, v, b3)"
| "set_qbit Q3 v (b0, b1, b2, b3) = (b0, b1, b2, v)"

definition flip :: "qubit \<Rightarrow> basis \<Rightarrow> basis" where
  "flip k b = set_qbit k (\<not> qbit k b) b"

definition ket :: "basis \<Rightarrow> qstate" where
  "ket s = (\<lambda>b. if b = s then 1 else 0)"

definition ground :: qstate where
  "ground = ket (False, False, False, False)"

definition qc_x :: "qubit \<Rightarrow> qstate \<Rightarrow> qstate" where
  "qc_x t \<psi> = (\<lambda>b. \<psi> (flip t b))"

definition qc_cx :: "qubit \<Rightarrow> qubit \<Rightarrow> qstate \<Rightarrow> qstate" where
  "qc_cx c t \<psi> = (\<lambda>b. if qbit c b then \<psi> (flip t b) else \<psi> b)"

definition qc_cz :: "qubit \<Rightarrow> qubit \<Rightarrow> qstate \<Rightarrow> qstate" where
  "qc_cz c t \<psi> = (\<lambda>b. if qbit c b \<and> qbit t b then - \<psi> b else \<psi> b)"

definition qc_ch :: "qubit \<Rightarrow> qubit \<Rightarrow> qstate \<Rightarrow> qstate" where
  "qc_ch c t \<psi> =
     (\<lambda>b. if qbit c b
          then (\<psi> (set_qbit t False b) + (if qbit t b then - 1 else 1) * \<psi> (set_qbit t True b))
                 / complex_of_real (sqrt 2)
          else \<psi> b)"

text \<open>A circuit is the list of the operations appended to it, run in order.\<close>

datatype operation = X qubit | CX qubit qubit | CH qubit qubit | CZ qubit qubit

fun apply_operation :: "operation \<Rightarrow> qstate \<Rightarrow> qstate" where
  "apply_operation (X t) = qc_x t"
| "apply_operation (CX c t) = qc_cx c t"
| "apply_operation (CH c t) = qc_ch c t"
| "apply_operation (CZ c t) = qc_cz c t"

fun run :: "operation list \<Rightarrow> qstate \<Rightarrow> qstate" where
  "run [] \<psi> = \<psi>"
| "run (g # gs) \<psi> = run gs (apply_operation g \<psi>)"

text \<open>
  The input cell: an \<open>x\<close> on each input qubit that must start in the excited state
  (the notebook has both lines uncommented, and says to comment one out for a 0).
\<close>

definition input_ops :: "bool \<Rightarrow> bool \<Rightarrow> operation list" where
  "input_ops a b = (if a then [X Q0] else []) @ (if b then [X Q1] else [])"

definition xor_ops :: "operation list" where
  "xor_ops = [CX Q0 Q2, CX Q1 Q2]"

definition and_ops :: "operation list" where
  "and_ops = [CH Q0 Q3, CZ Q1 Q3, CH Q0 Q3]"

definition adder :: "bool \<Rightarrow> bool \<Rightarrow> operation list" where
  "adder a b = input_ops a b @ xor_ops @ and_ops"

text \<open>
  Measurement: the probability of a basis state is the squared modulus of its
  amplitude. \<open>measure_qubit\<close> is the probability that one qubit reads a given bit,
  \<open>measure_all\<close> the probability of a result key; the key lists the classical bits
  in the order \<open>q3 q2 q1 q0\<close>.
\<close>

definition all_basis :: "basis list" where
  "all_basis = [(b0, b1, b2, b3). b3 \<leftarrow> [False, True], b2 \<leftarrow> [False, True],
                                   b1 \<leftarrow> [False, True], b0 \<leftarrow> [False, True]]"

definition prob :: "qstate \<Rightarrow> basis \<Rightarrow> real" where
  "prob \<psi> b = (cmod (\<psi> b))\<^sup>2"

definition measure_qubit :: "qstate \<Rightarrow> qubit \<Rightarrow> bool \<Rightarrow> real" where
  "measure_qubit \<psi> k v = sum_list (map (prob \<psi>) (filter (\<lambda>b. qbit k b = v) all_basis))"

definition bit_char :: "bool \<Rightarrow> char" where
  "bit_char v = (if v then CHR ''1'' else CHR ''0'')"

fun bitstring :: "basis \<Rightarrow> string" where
  "bitstring (b0, b1, b2, b3) = [bit_char b3, bit_char b2, bit_char b1, bit_char b0]"

definition measure_all :: "qstate \<Rightarrow> string \<Rightarrow> real" where
  "measure_all \<psi> key = sum_list (map (prob \<psi>) (filter (\<lambda>b. bitstring b = key) all_basis))"


section \<open>Reading the summary of a data flow run\<close>

text \<open>
  The data flow notebook reads the state of a run with one call and prints the reply:
  \<^verbatim>\<open>
  def pretty_print(json_content):
      parsed_json = json.loads(json_content)
      print(json.dumps(parsed_json, indent=4, sort_keys=True))

  dataflow_run_summary = requests.get(service_URL + "/v2/data_flows/" + data_flow_id
      + "/runs/" + data_flow_run_id + "?project_id=" + project_id,
      headers={'Authorization': authorization})
  pretty_print(dataflow_run_summary.text)
  \<close>
  The service and the connection to it are the environment: \<open>net n\<close> is what the
  \<open>n\<close>-th request sent by the notebook meets, a network-level failure (which
  \<open>requests.get\<close> raises) or a response. The notebook state counts the requests
  sent and keeps the printed lines. The \<open>json\<close> library is a parameter:
  \<open>reformat\<close> stands for \<open>json.dumps(json.loads(_), indent=4, sort_keys=True)\<close>,
  with \<open>None\<close> where \<open>json.loads\<close> raises \<open>ValueError\<close>.
\<close>

datatype io_error = ConnectionError

record response =
  response_text :: string

type_synonym network = "nat \<Rightarrow> io_error + response"

record notebook =
  requests_sent :: nat
  stdout :: "string list"

datatype cell_error = RequestException io_error | ValueError

definition requests_get :: "network \<Rightarrow> notebook \<Rightarrow> (io_error + response) \<times> notebook" where
  "requests_get net nb = (net (requests_sent nb), nb\<lparr>requests_sent := Suc (requests_sent nb)\<rparr>)"

definition pretty_print ::
  "(string \<Rightarrow> string option) \<Rightarrow> string \<Rightarrow> notebook \<Rightarrow> (cell_error + unit) \<times> notebook" where
  "pretty_print reformat json_content nb =
     (case reformat json_content of
        None \<Rightarrow> (Inl ValueError, nb)
      | Some out \<Rightarrow> (Inr (), nb\<lparr>stdout := stdout nb @ [out]\<rparr>))"

definition run_summary_cell ::
  "(string \<Rightarrow> string option) \<Rightarrow> network \<Rightarrow> notebook \<Rightarrow> (cell_error + unit) \<times> notebook" where
  "run_summary_cell reformat net nb =
     (case requests_get net nb of
        (Inl e, nb') \<Rightarrow> (Inl (RequestException e), nb')
      | (Inr dataflow_run_summary, nb') \<Rightarrow>
          pretty_print reformat (response_text dataflow_run_summary) nb')"

text \<open>
  Two environments: one whose first request meets a connection failure and whose
  later requests are answered, and one that answers every request.
\<close>

definition fresh_notebook :: notebook where
  "fresh_notebook = \<lparr>requests_sent = 0, stdout = []\<rparr>"

definition run_reply :: response where
  "run_reply = \<lparr>response_text = ''{}''\<rparr>"

definition flaky_network :: network where
  "flaky_network n = (if n = 0 then Inl ConnectionError else Inr run_reply)"

definition steady_network :: network where
  "steady_network n = Inr run_reply"


section \<open>The tally is a partition of the shots\<close>

lemma tally_step_ok:
  assumes "result_frequencies (take 2 key) = Some f" and "map_of rc key = Some c"
  shows "tally_step rc result_frequencies key = Inr (result_frequencies(take 2 key \<mapsto> f + c))"
  using assms by (simp add: tally_step_def)

text \<open>
  The loop invariant, for any suffix \<open>xs\<close> of the items still to be visited and any
  frequencies reached so far: each entry grows by the shots of the visited keys with
  its prefix, and no subscript fails.
\<close>

lemma tally_loop_invariant:
  assumes "distinct (map fst rc)"
    and "set xs \<subseteq> set rc"
    and "\<forall>kv \<in> set xs. take 2 (fst kv) \<in> dom freqs"
  shows "tally_loop rc freqs (map fst xs) =
           Inr (\<lambda>p. case freqs p of None \<Rightarrow> None | Some f \<Rightarrow> Some (f + prefix_total xs p))"
  using assms(2,3)
proof (induction xs arbitrary: freqs)
  case Nil
  show ?case by (auto simp: prefix_total_def split: option.splits)
next
  case (Cons kv xs)
  obtain k c where kv: "kv = (k, c)" by (cases kv)
  from Cons.prems kv obtain f where f: "freqs (take 2 k) = Some f" by auto
  from Cons.prems kv assms(1) have c: "map_of rc k = Some c" by simp
  have step: "tally_step rc freqs k = Inr (freqs(take 2 k \<mapsto> f + c))"
    using f c by (rule tally_step_ok)
  have "tally_loop rc freqs (map fst (kv # xs)) =
          tally_loop rc (freqs(take 2 k \<mapsto> f + c)) (map fst xs)"
    by (simp add: kv step)
  also have "\<dots> =
          Inr (\<lambda>p. case (freqs(take 2 k \<mapsto> f + c)) p of None \<Rightarrow> None
                    | Some g \<Rightarrow> Some (g + prefix_total xs p))"
    using Cons.prems by (intro Cons.IH) auto
  also have "(\<lambda>p. case (freqs(take 2 k \<mapsto> f + c)) p of None \<Rightarrow> None
                    | Some g \<Rightarrow> Some (g + prefix_total xs p)) =
             (\<lambda>p. case freqs p of None \<Rightarrow> None | Some g \<Rightarrow> Some (g + prefix_total (kv # xs) p))"
    using f by (auto simp: kv prefix_total_def fun_eq_iff split: option.splits)
  finally show ?case .
qed

lemma prefix_total_outcomes:
  assumes "\<forall>kv \<in> set rc. take 2 (fst kv) \<in> set outcomes"
  shows "sum_list (map (prefix_total rc) outcomes) = sum_list (map snd rc)"
  using assms
proof (induction rc)
  case Nil
  show ?case by (simp add: prefix_total_def outcomes_def)
next
  case (Cons kv rc)
  have "take 2 (fst kv) \<in> set outcomes" using Cons.prems by simp
  then have "sum_list (map (prefix_total (kv # rc)) outcomes) =
             snd kv + sum_list (map (prefix_total rc) outcomes)"
    by (auto simp: prefix_total_def outcomes_def)
  with Cons show ?case by simp
qed

lemma dom_result_frequencies_init: "dom result_frequencies_init = set outcomes"
  by (auto simp: result_frequencies_init_def outcomes_def split: if_splits)

text \<open>
  C10. For every \<open>result_counts\<close> whose keys begin with one of \<open>00\<close>, \<open>01\<close>, \<open>10\<close>,
  \<open>11\<close>, the tally loop ends without an error; the frequencies it produces have
  exactly these four keys, each frequency is the sum of the counts of exactly the keys
  sharing that two-character prefix, and the four frequencies sum to the total of all
  counts.
\<close>

theorem tally_partition:
  assumes "distinct (map fst result_counts)"
    and "\<forall>key \<in> set (map fst result_counts). take 2 key \<in> set outcomes"
  shows "\<exists>result_frequencies.
           tally result_counts = Inr result_frequencies \<and>
           dom result_frequencies = set outcomes \<and>
           (\<forall>p \<in> set outcomes. result_frequencies p = Some (prefix_total result_counts p)) \<and>
           sum_list (map (\<lambda>p. the (result_frequencies p)) outcomes) =
             sum_list (map snd result_counts)"
proof -
  let ?F = "\<lambda>p. case result_frequencies_init p of None \<Rightarrow> None
                 | Some f \<Rightarrow> Some (f + prefix_total result_counts p)"
  have pre: "\<forall>kv \<in> set result_counts. take 2 (fst kv) \<in> set outcomes"
    using assms(2) by simp
  have run: "tally result_counts = Inr ?F"
    unfolding tally_def
    using assms(1) pre by (intro tally_loop_invariant) (auto simp: dom_result_frequencies_init)
  have each: "\<forall>p \<in> set outcomes. ?F p = Some (prefix_total result_counts p)"
    by (auto simp: outcomes_def result_frequencies_init_def)
  have "dom ?F = dom result_frequencies_init"
    by (auto split: option.splits)
  then have d: "dom ?F = set outcomes"
    by (simp only: dom_result_frequencies_init)
  have "map (\<lambda>p. the (?F p)) outcomes = map (prefix_total result_counts) outcomes"
    using each by simp
  then have total: "sum_list (map (\<lambda>p. the (?F p)) outcomes) = sum_list (map snd result_counts)"
    by (simp only: prefix_total_outcomes [OF pre])
  show ?thesis using run d each total by blast
qed

theorem tally_partition_witness:
  "distinct (map fst sample_counts) \<and>
   list_all (\<lambda>key. take 2 key \<in> set outcomes) (map fst sample_counts) \<and>
   (\<exists>result_frequencies.
      tally sample_counts = Inr result_frequencies \<and>
      result_frequencies ''00'' = Some 263 \<and>
      result_frequencies ''01'' = Some 91 \<and>
      result_frequencies ''10'' = Some 590 \<and>
      result_frequencies ''11'' = Some 80 \<and>
      sum_list (map (\<lambda>p. the (result_frequencies p)) outcomes) = 1024)"
proof -
  have d: "distinct (map fst sample_counts)"
    by (simp add: sample_counts_def)
  have p: "\<forall>key \<in> set (map fst sample_counts). take 2 key \<in> set outcomes"
    by (simp add: sample_counts_def outcomes_def)
  from tally_partition [OF d p] obtain rf where
    rf: "tally sample_counts = Inr rf"
      "\<forall>p \<in> set outcomes. rf p = Some (prefix_total sample_counts p)"
      "sum_list (map (\<lambda>p. the (rf p)) outcomes) = sum_list (map snd sample_counts)"
    by blast
  from rf(2) have "rf ''00'' = Some 263" "rf ''01'' = Some 91"
      "rf ''10'' = Some 590" "rf ''11'' = Some 80"
    by (simp_all add: outcomes_def prefix_total_def sample_counts_def)
  moreover from rf(3) have "sum_list (map (\<lambda>p. the (rf p)) outcomes) = 1024"
    by (simp add: sample_counts_def)
  ultimately have "\<exists>result_frequencies.
      tally sample_counts = Inr result_frequencies \<and>
      result_frequencies ''00'' = Some 263 \<and>
      result_frequencies ''01'' = Some 91 \<and>
      result_frequencies ''10'' = Some 590 \<and>
      result_frequencies ''11'' = Some 80 \<and>
      sum_list (map (\<lambda>p. the (result_frequencies p)) outcomes) = 1024"
    using rf(1) by blast
  moreover have "list_all (\<lambda>key. take 2 key \<in> set outcomes) (map fst sample_counts)"
    using p by (simp only: list_all_iff)
  ultimately show ?thesis using d by blast
qed


section \<open>The adder circuit on basis inputs\<close>

lemma run_append: "run (gs @ hs) \<psi> = run hs (run gs \<psi>)"
  by (induction gs arbitrary: \<psi>) simp_all

lemma qc_x_ket: "qc_x t (ket s) = ket (flip t s)"
  by (cases t; cases s) (auto simp: qc_x_def ket_def flip_def fun_eq_iff)

lemma qc_cx_ket: "c \<noteq> t \<Longrightarrow> qc_cx c t (ket s) = ket (if qbit c s then flip t s else s)"
  by (cases t; cases c; cases s) (auto simp: qc_cx_def ket_def flip_def fun_eq_iff)

lemma input_ket: "run (input_ops a b) ground = ket (a, b, False, False)"
  by (cases a; cases b) (simp_all add: input_ops_def ground_def qc_x_ket flip_def)

lemma xor_ket: "run xor_ops (ket (a, b, False, d)) = ket (a, b, a \<noteq> b, d)"
  by (cases a; cases b) (simp_all add: xor_ops_def qc_cx_ket flip_def)

lemma sqrt2_sq: "complex_of_real (sqrt 2) * complex_of_real (sqrt 2) = 2"
  by (simp flip: of_real_mult)

text \<open>
  The three operations on \<open>q3\<close>: where \<open>q0\<close> is 1 the first \<open>ch\<close> makes an equal
  superposition of \<open>q3 = 0\<close> and \<open>q3 = 1\<close>, \<open>cz\<close> negates the second amplitude where
  \<open>q1\<close> is 1, and the second \<open>ch\<close> adds and subtracts the two amplitudes.
\<close>

lemma and_ket: "run and_ops (ket (a, b, c, False)) = ket (a, b, c, a \<and> b)"
proof (rule ext)
  fix x :: basis
  obtain x0 x1 x2 x3 where x: "x = (x0, x1, x2, x3)"
    by (cases x)
  show "run and_ops (ket (a, b, c, False)) x = ket (a, b, c, a \<and> b) x"
    unfolding x
    by (cases x0; cases x1; cases x3)
       (auto simp add: and_ops_def qc_ch_def qc_cz_def ket_def sqrt2_sq divide_divide_eq_left
                  simp flip: add_divide_distrib)
qed

lemma adder_ket: "run (adder a b) ground = ket (a, b, a \<noteq> b, a \<and> b)"
  by (simp add: adder_def run_append input_ket xor_ket and_ket)

lemma prob_ket: "prob (ket s) b = (if b = s then 1 else 0)"
  by (simp add: prob_def ket_def)

lemma sum_list_indicator:
  "distinct xs \<Longrightarrow>
     sum_list (map (\<lambda>b. if b = s then 1 else 0 :: real) xs) = (if s \<in> set xs then 1 else 0)"
  by (induction xs) auto

lemma distinct_all_basis: "distinct all_basis"
  by (simp add: all_basis_def)

lemma in_all_basis: "b \<in> set all_basis"
proof -
  obtain b0 b1 b2 b3 where "b = (b0, b1, b2, b3)"
    by (cases b)
  then show ?thesis
    by (cases b0; cases b1; cases b2; cases b3) (simp_all add: all_basis_def)
qed

lemma sum_prob_ket:
  "sum_list (map (prob (ket s)) (filter P all_basis)) = (if P s then 1 else 0)"
proof -
  have "prob (ket s) = (\<lambda>b. if b = s then 1 else 0)"
    by (rule ext) (rule prob_ket)
  then have "sum_list (map (prob (ket s)) (filter P all_basis)) =
        sum_list (map (\<lambda>b. if b = s then 1 else 0) (filter P all_basis))"
    by (simp only:)
  also have "\<dots> = (if s \<in> set (filter P all_basis) then 1 else 0)"
    by (rule sum_list_indicator) (simp add: distinct_all_basis)
  also have "\<dots> = (if P s then 1 else 0)"
    by (simp add: in_all_basis)
  finally show ?thesis .
qed

lemma measure_qubit_ket: "measure_qubit (ket s) k v = (if qbit k s = v then 1 else 0)"
  unfolding measure_qubit_def by (rule sum_prob_ket)

lemma measure_all_ket: "measure_all (ket s) key = (if bitstring s = key then 1 else 0)"
  unfolding measure_all_def by (rule sum_prob_ket)

text \<open>
  C8. For every pair of basis inputs \<open>a\<close>, \<open>b\<close> on \<open>q0\<close> and \<open>q1\<close>, with \<open>q2\<close> in the
  ground state (and \<open>q3\<close> in any basis state \<open>d\<close>), \<open>cx(q0, q2)\<close> then \<open>cx(q1, q2)\<close>
  leaves the register in the basis state whose \<open>q2\<close> is \<open>a XOR b\<close>, the other qubits
  unchanged; measuring \<open>q2\<close> then reads \<open>a XOR b\<close> with probability 1. The same holds
  when the inputs are prepared from the ground state by the input cell.
\<close>

theorem xor_ops_q2:
  "run xor_ops (ket (a, b, False, d)) = ket (a, b, a \<noteq> b, d) \<and>
   measure_qubit (run xor_ops (ket (a, b, False, d))) Q2 (a \<noteq> b) = 1 \<and>
   measure_qubit (run (input_ops a b @ xor_ops) ground) Q2 (a \<noteq> b) = 1"
  by (simp add: run_append input_ket xor_ket measure_qubit_ket)

theorem xor_ops_q2_witness:
  "measure_qubit (run xor_ops (ket (True, False, False, False))) Q2 True = 1 \<and>
   measure_qubit (run (input_ops True True @ xor_ops) ground) Q2 False = 1"
proof -
  have "measure_qubit (run xor_ops (ket (True, False, False, False))) Q2 (True \<noteq> False) = 1"
    using xor_ops_q2 [of True False False] by blast
  moreover
  have "measure_qubit (run (input_ops True True @ xor_ops) ground) Q2 (True \<noteq> True) = 1"
    using xor_ops_q2 [of True True False] by blast
  ultimately show ?thesis by simp
qed

text \<open>
  C9. For every pair of basis inputs \<open>a\<close>, \<open>b\<close> on \<open>q0\<close> and \<open>q1\<close>, with \<open>q3\<close> in the
  ground state (and \<open>q2\<close> in any basis state \<open>c\<close>), \<open>ch(q0, q3)\<close>, \<open>cz(q1, q3)\<close>,
  \<open>ch(q0, q3)\<close> leaves the register in the basis state whose \<open>q3\<close> is \<open>a AND b\<close>;
  measuring \<open>q3\<close> then reads \<open>a AND b\<close> with probability 1. With \<open>a = b = 1\<close>, as
  the notebook has it, the whole circuit measures the key \<open>1011\<close> with probability 1,
  whose first two characters, \<open>q3 q2\<close>, are \<open>10\<close>.
\<close>

theorem and_ops_q3:
  "run and_ops (ket (a, b, c, False)) = ket (a, b, c, a \<and> b) \<and>
   measure_qubit (run and_ops (ket (a, b, c, False))) Q3 (a \<and> b) = 1 \<and>
   measure_qubit (run (adder a b) ground) Q3 (a \<and> b) = 1 \<and>
   measure_all (run (adder True True) ground) ''1011'' = 1 \<and>
   take 2 ''1011'' = ''10''"
  by (simp add: and_ket adder_ket measure_qubit_ket measure_all_ket bit_char_def)

theorem and_ops_q3_witness:
  "measure_qubit (run and_ops (ket (True, True, False, False))) Q3 True = 1 \<and>
   measure_qubit (run (adder True False) ground) Q3 False = 1"
proof -
  have "measure_qubit (run and_ops (ket (True, True, False, False))) Q3 (True \<and> True) = 1"
    using and_ops_q3 [of True True False] by blast
  moreover
  have "measure_qubit (run (adder True False) ground) Q3 (True \<and> False) = 1"
    using and_ops_q3 [of True False False] by blast
  ultimately show ?thesis by simp
qed


section \<open>The summary cell sends one request\<close>

text \<open>
  C7, as the notebook has it. The cell that reads the state of a run sends exactly
  one request, whatever comes back: it never tries again. A network-level failure of
  that request reaches the caller at once, with nothing printed; a reply is printed
  as the \<open>json\<close> library renders it, whatever the state of the run it describes, so
  a run that reached the error state is not tried again either.
\<close>

theorem run_summary_cell_single_request:
  "requests_sent (snd (run_summary_cell reformat net nb)) = Suc (requests_sent nb) \<and>
   (\<forall>e. net (requests_sent nb) = Inl e \<longrightarrow>
      run_summary_cell reformat net nb =
        (Inl (RequestException e), nb\<lparr>requests_sent := Suc (requests_sent nb)\<rparr>)) \<and>
   (\<forall>r out. net (requests_sent nb) = Inr r \<longrightarrow> reformat (response_text r) = Some out \<longrightarrow>
      run_summary_cell reformat net nb =
        (Inr (), nb\<lparr>requests_sent := Suc (requests_sent nb), stdout := stdout nb @ [out]\<rparr>))"
  by (auto simp: run_summary_cell_def requests_get_def pretty_print_def
           split: sum.splits option.splits)

theorem run_summary_cell_single_request_witness:
  "flaky_network (requests_sent fresh_notebook) = Inl ConnectionError \<and>
   run_summary_cell Some flaky_network fresh_notebook =
     (Inl (RequestException ConnectionError), \<lparr>requests_sent = 1, stdout = []\<rparr>) \<and>
   steady_network (requests_sent fresh_notebook) = Inr run_reply \<and>
   run_summary_cell Some steady_network fresh_notebook =
     (Inr (), \<lparr>requests_sent = 1, stdout = [''{}'']\<rparr>)"
  using run_summary_cell_single_request [of Some flaky_network fresh_notebook]
    run_summary_cell_single_request [of Some steady_network fresh_notebook]
  by (simp add: flaky_network_def steady_network_def fresh_notebook_def run_reply_def)

text \<open>
  C7, as stated, fails: a transient network-level failure is not retried. The request
  that meets a connection failure is not repeated, although the next request would
  have been answered; the failure reaches the caller after one request.
\<close>

theorem run_summary_cell_no_retry:
  "flaky_network 1 = Inr run_reply \<and>
   run_summary_cell Some flaky_network fresh_notebook =
     (Inl (RequestException ConnectionError), \<lparr>requests_sent = 1, stdout = []\<rparr>)"
  by (simp add: run_summary_cell_def requests_get_def flaky_network_def fresh_notebook_def)

end
